theory Spec2Isabelle
  imports Complex_Main "HOL-Library.Multiset"
begin

section \<open>Random password generator: the policy tables\<close>

text \<open>
  The development follows \<^verbatim>\<open>src/utils/passwordGenerator.ts\<close>. A JavaScript string is
  modelled as a \<^typ>\<open>string\<close>, one \<^typ>\<open>char\<close> per code unit (a \<^typ>\<open>char\<close> has eight
  bits, so the passwords considered have code units below 256; every character of the
  tables is one of them). The requested length is a JavaScript number; the model takes
  the integer values, an \<^typ>\<open>int\<close>. An object literal is an association list in the
  order of its keys, which is the order \<^verbatim>\<open>Object.values\<close> enumerates. The fields of
  \<^verbatim>\<open>PasswordConfig\<close> are \<open>length\<close> and \<open>strength\<close>; they carry the suffix \<open>_cfg\<close> here,
  \<open>length\<close> being the length of a list and \<open>strength\<close> a field of the validation report.
\<close>

datatype PasswordStrength = low | medium | high

record PasswordConfig =
  length_cfg :: int
  strength_cfg :: PasswordStrength

fun CHARACTER_SETS :: "PasswordStrength \<Rightarrow> (string \<times> string) list" where
  "CHARACTER_SETS low =
     [(''lowercase'', ''abcdefghijklmnopqrstuvwxyz''),
      (''uppercase'', ''ABCDEFGHIJKLMNOPQRSTUVWXYZ''),
      (''numbers'', ''0123456789'')]"
| "CHARACTER_SETS medium =
     [(''lowercase'', ''abcdefghijklmnopqrstuvwxyz''),
      (''uppercase'', ''ABCDEFGHIJKLMNOPQRSTUVWXYZ''),
      (''numbers'', ''0123456789''),
      (''symbols'', ''!@#$%^&*'')]"
| "CHARACTER_SETS high =
     [(''lowercase'', ''abcdefghijklmnopqrstuvwxyz''),
      (''uppercase'', ''ABCDEFGHIJKLMNOPQRSTUVWXYZ''),
      (''numbers'', ''0123456789''),
      (''symbols'', ''!@#$%^&*()_+-=[]{}|;:,.<>?'')]"

fun MIN_LENGTHS :: "PasswordStrength \<Rightarrow> int" where
  "MIN_LENGTHS low = 6"
| "MIN_LENGTHS medium = 8"
| "MIN_LENGTHS high = 12"

text \<open>\<^verbatim>\<open>Object.values(obj)\<close>: the values in key order.\<close>

definition Object_values :: "(string \<times> string) list \<Rightarrow> string list" where
  "Object_values obj = map snd obj"

text \<open>\<^verbatim>\<open>strings.join('')\<close>.\<close>

definition join_strings :: "string list \<Rightarrow> string" where
  "join_strings ss = concat ss"

section \<open>Template literals and the thrown error\<close>

text \<open>
  A strength level is the string that tags it, and a number inside a template literal is
  rendered in decimal.
\<close>

fun strength_name :: "PasswordStrength \<Rightarrow> string" where
  "strength_name low = ''low''"
| "strength_name medium = ''medium''"
| "strength_name high = ''high''"

function string_of_nat :: "nat \<Rightarrow> string" where
  "string_of_nat n =
     (if n < 10 then [''0123456789'' ! n]
      else string_of_nat (n div 10) @ [''0123456789'' ! (n mod 10)])"
  by pat_completeness auto
termination
  by (relation "measure (\<lambda>n. n)") auto

declare string_of_nat.simps [simp del]

definition string_of_int :: "int \<Rightarrow> string" where
  "string_of_int i = (if i < 0 then ''-'' @ string_of_nat (nat (- i)) else string_of_nat (nat i))"

text \<open>\<^verbatim>\<open>new Error(message)\<close>: the only datum of the exception is its message.\<close>

datatype js_error = Error string

section \<open>The randomness source\<close>

text \<open>
  \<^verbatim>\<open>Math.random()\<close> is a global generator. It is modelled as a sequence \<open>rnd\<close> of
  numbers together with a counter \<open>k\<close> of the calls made so far: the \<open>k\<close>-th call returns
  \<open>rnd k\<close>, and every function that draws returns the advanced counter. The contract of
  \<^verbatim>\<open>Math.random\<close> is \<open>0 \<le> rnd k < 1\<close>; the theorems about generation assume it.
  \<open>random_index rnd k n\<close> is \<^verbatim>\<open>Math.floor(Math.random() * n)\<close>, the product taken exactly.
\<close>

definition random_index :: "(nat \<Rightarrow> rat) \<Rightarrow> nat \<Rightarrow> int \<Rightarrow> int" where
  "random_index rnd k n = \<lfloor>rnd k * of_int n\<rfloor>"

section \<open>String indexing and concatenation\<close>

text \<open>
  \<^verbatim>\<open>s[i]\<close> is the one-character string at index \<open>i\<close>, or \<^verbatim>\<open>undefined\<close> (here \<open>None\<close>)
  outside the string; \<^verbatim>\<open>password += v\<close> appends the text \<^verbatim>\<open>undefined\<close> in that case.
\<close>

definition index_string :: "string \<Rightarrow> int \<Rightarrow> string option" where
  "index_string s i = (if 0 \<le> i \<and> i < int (length s) then Some [s ! nat i] else None)"

definition append_value :: "string \<Rightarrow> string option \<Rightarrow> string" where
  "append_value password v =
     password @ (case v of Some c \<Rightarrow> c | None \<Rightarrow> ''undefined'')"

section \<open>shuffleString\<close>

text \<open>
  \<^verbatim>\<open>str.split('')\<close> gives an array of one-character strings. A JavaScript array may hold
  \<^verbatim>\<open>undefined\<close> and grows when written beyond its end, so its cells are options;
  \<^verbatim>\<open>arr.join('')\<close> renders an \<^verbatim>\<open>undefined\<close> cell as the empty string.
\<close>

type_synonym js_array = "char option list"

definition split_chars :: "string \<Rightarrow> js_array" where
  "split_chars str = map Some str"

definition join_chars :: "js_array \<Rightarrow> string" where
  "join_chars arr = concat (map (\<lambda>cell. case cell of Some c \<Rightarrow> [c] | None \<Rightarrow> []) arr)"

definition array_get :: "js_array \<Rightarrow> int \<Rightarrow> char option" where
  "array_get arr i = (if 0 \<le> i \<and> i < int (length arr) then arr ! nat i else None)"

text \<open>
  \<^verbatim>\<open>arr[i] = v\<close>: inside the array the cell is overwritten; beyond the end the array is
  extended with holes up to \<open>i\<close>; a negative \<open>i\<close> names an ordinary property and leaves
  the cells as they are.
\<close>

definition array_set :: "js_array \<Rightarrow> int \<Rightarrow> char option \<Rightarrow> js_array" where
  "array_set arr i v =
     (if i < 0 then arr
      else if i < int (length arr) then arr[nat i := v]
      else arr @ replicate (nat i - length arr) None @ [v])"

text \<open>\<^verbatim>\<open>[arr[i], arr[j]] = [arr[j], arr[i]]\<close>: both reads happen before both writes.\<close>

definition swap_cells :: "js_array \<Rightarrow> int \<Rightarrow> int \<Rightarrow> js_array" where
  "swap_cells arr i j =
     (let aj = array_get arr j; ai = array_get arr i
      in array_set (array_set arr i aj) j ai)"

text \<open>The loop \<^verbatim>\<open>for (let i = arr.length - 1; i > 0; i--)\<close>.\<close>

function shuffle_loop :: "int \<Rightarrow> (nat \<Rightarrow> rat) \<Rightarrow> js_array \<times> nat \<Rightarrow> js_array \<times> nat" where
  "shuffle_loop i rnd (arr, k) =
     (if i > 0 then
        let j = random_index rnd k (i + 1)
        in shuffle_loop (i - 1) rnd (swap_cells arr i j, Suc k)
      else (arr, k))"
  by pat_completeness auto
termination
  by (relation "measure (\<lambda>(i, rnd, s). nat i)") auto

declare shuffle_loop.simps [simp del]

definition shuffleString :: "string \<Rightarrow> (nat \<Rightarrow> rat) \<Rightarrow> nat \<Rightarrow> string \<times> nat" where
  "shuffleString str rnd k =
     (let arr = split_chars str;
          (arr', k') = shuffle_loop (int (length arr) - 1) rnd (arr, k)
      in (join_chars arr', k'))"

section \<open>generatePassword\<close>

text \<open>\<^verbatim>\<open>requiredSets.forEach(charSet => ...)\<close>: one draw from every class, in order.\<close>

fun forEach_requiredSets :: "string list \<Rightarrow> (nat \<Rightarrow> rat) \<Rightarrow> string \<times> nat \<Rightarrow> string \<times> nat" where
  "forEach_requiredSets [] rnd (password, k) = (password, k)"
| "forEach_requiredSets (charSet # rest) rnd (password, k) =
     (let randomIndex = random_index rnd k (int (length charSet))
      in forEach_requiredSets rest rnd
           (append_value password (index_string charSet randomIndex), Suc k))"

text \<open>The loop \<^verbatim>\<open>for (let i = 0; i < remainingLength; i++)\<close>.\<close>

function fill_loop ::
  "int \<Rightarrow> int \<Rightarrow> string \<Rightarrow> (nat \<Rightarrow> rat) \<Rightarrow> string \<times> nat \<Rightarrow> string \<times> nat" where
  "fill_loop i remainingLength allChars rnd (password, k) =
     (if i < remainingLength then
        let randomIndex = random_index rnd k (int (length allChars))
        in fill_loop (i + 1) remainingLength allChars rnd
             (append_value password (index_string allChars randomIndex), Suc k)
      else (password, k))"
  by pat_completeness auto
termination
  by (relation "measure (\<lambda>(i, remainingLength, allChars, rnd, s). nat (remainingLength - i))") auto

declare fill_loop.simps [simp del]

text \<open>
  The result is the thrown error or the returned password, paired with the counter of
  the randomness source after the call.
\<close>

definition generatePassword ::
  "PasswordConfig \<Rightarrow> (nat \<Rightarrow> rat) \<Rightarrow> nat \<Rightarrow> (js_error + string) \<times> nat" where
  "generatePassword config rnd k =
     (if length_cfg config < MIN_LENGTHS (strength_cfg config) then
        (Inl (Error (''Password length must be at least ''
                     @ string_of_int (MIN_LENGTHS (strength_cfg config))
                     @ '' characters for '' @ strength_name (strength_cfg config)
                     @ '' strength'')), k)
      else
        let charSets = CHARACTER_SETS (strength_cfg config);
            allChars = join_strings (Object_values charSets);
            requiredSets = Object_values charSets;
            (password, k1) = forEach_requiredSets requiredSets rnd ('''', k);
            remainingLength = length_cfg config - int (length password);
            (password', k2) = fill_loop 0 remainingLength allChars rnd (password, k1);
            (shuffled, k3) = shuffleString password' rnd k2
        in (Inr shuffled, k3))"

section \<open>validatePasswordStrength\<close>

text \<open>
  A character class \<^verbatim>\<open>/[a-z]/\<close> matches a code unit between its two ends, and
  \<^verbatim>\<open>regex.test(password)\<close> asks whether some position of the password matches.
\<close>

definition char_between :: "char \<Rightarrow> char \<Rightarrow> char \<Rightarrow> bool" where
  "char_between lo hi c = ((of_char lo :: nat) \<le> of_char c \<and> (of_char c :: nat) \<le> of_char hi)"

definition test_range :: "char \<Rightarrow> char \<Rightarrow> string \<Rightarrow> bool" where
  "test_range lo hi password = list_ex (char_between lo hi) password"

text \<open>
  The members of the class \<^verbatim>\<open>/[!@#$%^&*()_+\-=\[\]{}|;:,.<>?]/\<close>, the escapes removed.
\<close>

definition SYMBOL_CLASS :: string where
  "SYMBOL_CLASS = ''!@#$%^&*()_+-=[]{}|;:,.<>?''"

definition test_symbols :: "string \<Rightarrow> bool" where
  "test_symbols password = list_ex (\<lambda>c. c \<in> set SYMBOL_CLASS) password"

record validation_details =
  hasLowercase :: bool
  hasUppercase :: bool
  hasNumbers :: bool
  hasSymbols :: bool
  meetsLength :: bool
  strength :: PasswordStrength

record validation_result =
  isValid :: bool
  details :: validation_details

definition validatePasswordStrength :: "string \<Rightarrow> PasswordStrength \<Rightarrow> validation_result" where
  "validatePasswordStrength password s =
     (let minLength = MIN_LENGTHS s;
          hasLowercase' = test_range CHR ''a'' CHR ''z'' password;
          hasUppercase' = test_range CHR ''A'' CHR ''Z'' password;
          hasNumbers' = test_range CHR ''0'' CHR ''9'' password;
          hasSymbols' = (s \<noteq> low \<and> test_symbols password);
          meetsLength' = (int (length password) \<ge> minLength);
          isValid' = (hasLowercase' \<and> hasUppercase' \<and> hasNumbers' \<and>
                      (s = low \<or> hasSymbols') \<and> meetsLength')
      in \<lparr>isValid = isValid',
          details = \<lparr>hasLowercase = hasLowercase', hasUppercase = hasUppercase',
                     hasNumbers = hasNumbers', hasSymbols = hasSymbols',
                     meetsLength = meetsLength', strength = s\<rparr>\<rparr>)"

section \<open>Accessors\<close>

definition getMinLengthForStrength :: "PasswordStrength \<Rightarrow> int" where
  "getMinLengthForStrength s = MIN_LENGTHS s"

definition getCharacterSetsForStrength :: "PasswordStrength \<Rightarrow> (string \<times> string) list" where
  "getCharacterSetsForStrength s = CHARACTER_SETS s"

text \<open>A sample randomness source, used to run the definitions on concrete inputs.\<close>

definition sample_rnd :: "nat \<Rightarrow> rat" where
  "sample_rnd k = of_nat ((5 * k + 3) mod 7) / 7"

section \<open>Facts about the tables\<close>

lemma values_low:
  "Object_values (CHARACTER_SETS low) =
     [''abcdefghijklmnopqrstuvwxyz'', ''ABCDEFGHIJKLMNOPQRSTUVWXYZ'', ''0123456789'']"
  by (simp add: Object_values_def)

lemma values_medium:
  "Object_values (CHARACTER_SETS medium) =
     [''abcdefghijklmnopqrstuvwxyz'', ''ABCDEFGHIJKLMNOPQRSTUVWXYZ'', ''0123456789'',
      ''!@#$%^&*'']"
  by (simp add: Object_values_def)

lemma values_high:
  "Object_values (CHARACTER_SETS high) =
     [''abcdefghijklmnopqrstuvwxyz'', ''ABCDEFGHIJKLMNOPQRSTUVWXYZ'', ''0123456789'',
      SYMBOL_CLASS]"
  by (simp add: Object_values_def SYMBOL_CLASS_def)

lemma CHARACTER_SETS_nonempty:
  "cs \<in> set (Object_values (CHARACTER_SETS S)) \<Longrightarrow> cs \<noteq> []"
  by (cases S) (auto simp add: Object_values_def)

lemma CHARACTER_SETS_count:
  "int (length (Object_values (CHARACTER_SETS S))) \<le> MIN_LENGTHS S"
  by (cases S) (simp_all add: Object_values_def)

lemma allChars_nonempty: "join_strings (Object_values (CHARACTER_SETS S)) \<noteq> []"
  by (cases S) (simp_all add: Object_values_def join_strings_def)

lemma string_of_min:
  "string_of_int 6 = ''6''"
  "string_of_int 8 = ''8''"
  "string_of_int 12 = ''12''"
  by (simp_all add: string_of_int_def string_of_nat.simps[of 6] string_of_nat.simps[of 8]
      string_of_nat.simps[of 12] string_of_nat.simps[of "Suc 0"])

lemma error_message_cases:
  "''Password length must be at least '' @ string_of_int (MIN_LENGTHS S)
     @ '' characters for '' @ strength_name S @ '' strength''
   = (case S of
        low \<Rightarrow> ''Password length must be at least 6 characters for low strength''
      | medium \<Rightarrow> ''Password length must be at least 8 characters for medium strength''
      | high \<Rightarrow> ''Password length must be at least 12 characters for high strength'')"
  by (cases S) (simp_all add: string_of_min)

lemma lowercase_class:
  "c \<in> set ''abcdefghijklmnopqrstuvwxyz'' \<Longrightarrow> char_between CHR ''a'' CHR ''z'' c"
  by (auto simp add: char_between_def)

lemma uppercase_class:
  "c \<in> set ''ABCDEFGHIJKLMNOPQRSTUVWXYZ'' \<Longrightarrow> char_between CHR ''A'' CHR ''Z'' c"
  by (auto simp add: char_between_def)

lemma numbers_class:
  "c \<in> set ''0123456789'' \<Longrightarrow> char_between CHR ''0'' CHR ''9'' c"
  by (auto simp add: char_between_def)

lemma basic_symbols_class: "c \<in> set ''!@#$%^&*'' \<Longrightarrow> c \<in> set SYMBOL_CLASS"
  by (auto simp add: SYMBOL_CLASS_def)

lemma symbol_not_alphanumeric:
  assumes "c \<in> set SYMBOL_CLASS"
  shows "\<not> char_between CHR ''a'' CHR ''z'' c \<and> \<not> char_between CHR ''A'' CHR ''Z'' c
         \<and> \<not> char_between CHR ''0'' CHR ''9'' c"
  using assms by (auto simp add: SYMBOL_CLASS_def char_between_def)

section \<open>Draws stay inside the string they index\<close>

lemma random_index_range:
  assumes "0 \<le> rnd k" "rnd k < 1" "0 < n"
  shows "0 \<le> random_index rnd k n \<and> random_index rnd k n < n"
proof -
  have pos: "(0::rat) < of_int n" using assms(3) by simp
  have "0 \<le> rnd k * of_int n" using assms(1) pos by simp
  then have lo: "0 \<le> \<lfloor>rnd k * of_int n\<rfloor>" by simp
  have "rnd k * of_int n < 1 * of_int n"
    using assms(2) pos by (rule mult_strict_right_mono)
  then have "rnd k * of_int n < of_int n" by simp
  then have hi: "\<lfloor>rnd k * of_int n\<rfloor> < n" by (simp add: floor_less_iff)
  from lo hi show ?thesis by (simp add: random_index_def)
qed

text \<open>
  Conversely every index inside the range is the draw of some number of \<open>[0, 1)\<close>, so
  the sequences of numbers in \<open>[0, 1)\<close> give every sequence of in-range draws.
\<close>

lemma random_index_onto:
  assumes "0 \<le> j" "j < n"
  shows "\<exists>u::rat. 0 \<le> u \<and> u < 1 \<and> random_index (\<lambda>m. u) k n = j"
proof -
  let ?u = "of_int j / of_int n :: rat"
  have pos: "(0::rat) < of_int n" using assms by simp
  have "0 \<le> ?u" using assms(1) pos by simp
  moreover have "?u < 1" using assms(2) pos by simp
  moreover have "?u * of_int n = of_int j" using pos by simp
  then have "random_index (\<lambda>m. ?u) k n = j" by (simp add: random_index_def)
  ultimately show ?thesis by blast
qed

lemma append_index_in_range:
  assumes "0 \<le> i" "i < int (length s)"
  shows "append_value p (index_string s i) = p @ [s ! nat i]"
  using assms by (simp add: append_value_def index_string_def)

lemma sample_rnd_range: "0 \<le> sample_rnd m \<and> sample_rnd m < 1"
  by (simp add: sample_rnd_def)

section \<open>The two loops that assemble the password\<close>

lemma forEach_requiredSets_shape:
  assumes rng: "\<And>m. 0 \<le> rnd m \<and> rnd m < 1"
    and ne: "\<And>cs. cs \<in> set sets \<Longrightarrow> cs \<noteq> []"
  shows "\<exists>req. forEach_requiredSets sets rnd (p, k) = (p @ req, k + length sets)
            \<and> list_all2 (\<lambda>c cs. c \<in> set cs) req sets"
  using ne
proof (induction sets arbitrary: p k)
  case Nil
  then show ?case by simp
next
  case (Cons charSet rest)
  let ?i = "random_index rnd k (int (length charSet))"
  have "charSet \<noteq> []" using Cons.prems by simp
  then have len: "0 < int (length charSet)" by simp
  have r: "0 \<le> ?i \<and> ?i < int (length charSet)"
    using rng[of k] len by (simp add: random_index_range)
  then have step: "append_value p (index_string charSet ?i) = p @ [charSet ! nat ?i]"
    by (simp add: append_index_in_range)
  have "nat ?i < length charSet" using r by linarith
  then have mem: "charSet ! nat ?i \<in> set charSet" by simp
  from Cons.IH[of "p @ [charSet ! nat ?i]" "Suc k"] Cons.prems
  obtain req where req:
    "forEach_requiredSets rest rnd (p @ [charSet ! nat ?i], Suc k)
       = ((p @ [charSet ! nat ?i]) @ req, Suc k + length rest)"
    "list_all2 (\<lambda>c cs. c \<in> set cs) req rest"
    by auto
  have "forEach_requiredSets (charSet # rest) rnd (p, k)
          = (p @ (charSet ! nat ?i # req), k + length (charSet # rest))"
    using req(1) step by (simp add: Let_def)
  moreover have "list_all2 (\<lambda>c cs. c \<in> set cs) (charSet ! nat ?i # req) (charSet # rest)"
    using req(2) mem by simp
  ultimately show ?case by blast
qed

lemma fill_loop_shape:
  assumes rng: "\<And>m. 0 \<le> rnd m \<and> rnd m < 1"
    and ne: "allChars \<noteq> []"
  shows "\<exists>filler. fill_loop i n allChars rnd (p, k) = (p @ filler, k + nat (n - i))
            \<and> length filler = nat (n - i) \<and> set filler \<subseteq> set allChars"
  using rng ne
proof (induction i n allChars rnd "(p, k)" arbitrary: p k rule: fill_loop.induct)
  case (1 i n allChars rnd p k)
  show ?case
  proof (cases "i < n")
    case False
    then show ?thesis by (simp add: fill_loop.simps[of i n allChars rnd p k])
  next
    case True
    let ?j = "random_index rnd k (int (length allChars))"
    have len: "0 < int (length allChars)" using "1.prems"(2) by simp
    have r: "0 \<le> ?j \<and> ?j < int (length allChars)"
      using "1.prems"(1)[of k] len by (simp add: random_index_range)
    then have step: "append_value p (index_string allChars ?j) = p @ [allChars ! nat ?j]"
      by (simp add: append_index_in_range)
    have "nat ?j < length allChars" using r by linarith
    then have mem: "allChars ! nat ?j \<in> set allChars" by simp
    from "1.hyps"[OF True refl "1.prems"] step
    obtain filler where f:
      "fill_loop (i + 1) n allChars rnd (p @ [allChars ! nat ?j], Suc k)
         = ((p @ [allChars ! nat ?j]) @ filler, Suc k + nat (n - (i + 1)))"
      "length filler = nat (n - (i + 1))" "set filler \<subseteq> set allChars"
      by auto
    have cnt: "Suc (nat (n - (i + 1))) = nat (n - i)" using True by linarith
    have "fill_loop i n allChars rnd (p, k)
            = (p @ (allChars ! nat ?j # filler), k + nat (n - i))"
      using True f(1) step cnt by (simp add: fill_loop.simps[of i n allChars rnd p k] Let_def)
    moreover have "length (allChars ! nat ?j # filler) = nat (n - i)"
      using f(2) cnt by simp
    moreover have "set (allChars ! nat ?j # filler) \<subseteq> set allChars"
      using f(3) mem by simp
    ultimately show ?thesis by blast
  qed
qed

section \<open>The shuffle permutes\<close>

lemma swap_cells_in_range:
  assumes "0 \<le> j" "j \<le> i" "i < int (length arr)"
  shows "swap_cells arr i j = arr[nat i := arr ! nat j, nat j := arr ! nat i]"
  using assms by (simp add: swap_cells_def array_get_def array_set_def Let_def)

lemma mset_swap_cells:
  assumes "0 \<le> j" "j \<le> i" "i < int (length arr)"
  shows "mset (swap_cells arr i j) = mset arr"
proof -
  have a: "nat j < length arr" and b: "nat i < length arr" using assms by linarith+
  show ?thesis
    unfolding swap_cells_in_range[OF assms]
    using mset_swap[OF a b] by simp
qed

lemma shuffle_loop_mset:
  assumes rng: "\<And>m. 0 \<le> rnd m \<and> rnd m < 1"
    and bound: "i < int (length arr)"
  shows "mset (fst (shuffle_loop i rnd (arr, k))) = mset arr
         \<and> snd (shuffle_loop i rnd (arr, k)) = k + nat i"
  using rng bound
proof (induction i rnd "(arr, k)" arbitrary: arr k rule: shuffle_loop.induct)
  case (1 i rnd arr k)
  show ?case
  proof (cases "i > 0")
    case False
    then show ?thesis by (simp add: shuffle_loop.simps[of i rnd arr k])
  next
    case True
    let ?j = "random_index rnd k (i + 1)"
    have "0 < i + 1" using True by simp
    with "1.prems"(1)[of k] have r: "0 \<le> ?j \<and> ?j < i + 1"
      using random_index_range[of rnd k "i + 1"] by blast
    then have sw: "mset (swap_cells arr i ?j) = mset arr"
      using "1.prems"(2) by (simp add: mset_swap_cells)
    then have len: "length (swap_cells arr i ?j) = length arr"
      by (rule mset_eq_length)
    have b': "i - 1 < int (length (swap_cells arr i ?j))"
      using "1.prems"(2) len by simp
    note ih = "1.hyps"[OF True refl "1.prems"(1) b']
    have cnt: "Suc k + nat (i - 1) = k + nat i" using True by linarith
    show ?thesis
      using True ih sw cnt by (simp add: shuffle_loop.simps[of i rnd arr k] Let_def)
  qed
qed

lemma mset_join_chars:
  "mset (join_chars arr) =
     (\<Sum>cell\<in>#mset arr. mset (case cell of Some c \<Rightarrow> [c] | None \<Rightarrow> []))"
  by (induction arr) (simp_all add: join_chars_def)

lemma join_chars_split: "join_chars (split_chars str) = str"
  by (induction str) (simp_all add: join_chars_def split_chars_def)

lemma shuffleString_mset:
  assumes rng: "\<And>m. 0 \<le> rnd m \<and> rnd m < 1"
  shows "mset (fst (shuffleString str rnd k)) = mset str"
proof -
  let ?arr = "split_chars str"
  have "int (length ?arr) - 1 < int (length ?arr)" by simp
  from shuffle_loop_mset[OF rng this, where k = k]
  have m: "mset (fst (shuffle_loop (int (length ?arr) - 1) rnd (?arr, k))) = mset ?arr"
    by simp
  have "fst (shuffleString str rnd k)
          = join_chars (fst (shuffle_loop (int (length ?arr) - 1) rnd (?arr, k)))"
    by (simp add: shuffleString_def Let_def split: prod.splits)
  then have "mset (fst (shuffleString str rnd k)) = mset (join_chars ?arr)"
    by (simp add: mset_join_chars m)
  then show ?thesis by (simp add: join_chars_split)
qed

section \<open>The shape of a generated password\<close>

lemma required_in_union:
  "list_all2 (\<lambda>c cs. c \<in> set cs) req sets \<Longrightarrow> set req \<subseteq> set (join_strings sets)"
  by (induction req sets rule: list_all2_induct) (auto simp add: join_strings_def)

lemma required_cover:
  "list_all2 (\<lambda>c cs. c \<in> set cs) req sets \<Longrightarrow> cs \<in> set sets \<Longrightarrow> \<exists>c\<in>set req. c \<in> set cs"
  by (induction req sets rule: list_all2_induct) auto

lemma generatePassword_shape:
  assumes unit: "\<forall>m. 0 \<le> rnd m \<and> rnd m < 1"
    and len: "MIN_LENGTHS (strength_cfg config) \<le> length_cfg config"
  shows "\<exists>req filler pw k'.
           generatePassword config rnd k = (Inr pw, k')
         \<and> mset pw = mset (req @ filler)
         \<and> list_all2 (\<lambda>c cs. c \<in> set cs) req
              (Object_values (CHARACTER_SETS (strength_cfg config)))
         \<and> int (length req) + int (length filler) = length_cfg config
         \<and> set filler \<subseteq> set (join_strings (Object_values (CHARACTER_SETS (strength_cfg config))))"
proof -
  let ?S = "strength_cfg config"
  let ?sets = "Object_values (CHARACTER_SETS ?S)"
  let ?all = "join_strings ?sets"
  from unit have rng: "\<And>m. 0 \<le> rnd m \<and> rnd m < 1" by blast
  from forEach_requiredSets_shape[of rnd ?sets "''''" k] rng CHARACTER_SETS_nonempty
  obtain req where req:
    "forEach_requiredSets ?sets rnd ('''', k) = (req, k + length ?sets)"
    "list_all2 (\<lambda>c cs. c \<in> set cs) req ?sets"
    by auto
  have lreq: "length req = length ?sets" using req(2) by (rule list_all2_lengthD)
  then have room: "int (length req) \<le> length_cfg config"
    using CHARACTER_SETS_count[of ?S] len by simp
  from fill_loop_shape[of rnd ?all 0 "length_cfg config - int (length req)" req "k + length ?sets"]
    rng allChars_nonempty
  obtain filler where filler:
    "fill_loop 0 (length_cfg config - int (length req)) ?all rnd (req, k + length ?sets)
       = (req @ filler, k + length ?sets + nat (length_cfg config - int (length req)))"
    "length filler = nat (length_cfg config - int (length req))"
    "set filler \<subseteq> set ?all"
    by auto
  let ?k2 = "k + length ?sets + nat (length_cfg config - int (length req))"
  have gen: "generatePassword config rnd k
               = (Inr (fst (shuffleString (req @ filler) rnd ?k2)),
                  snd (shuffleString (req @ filler) rnd ?k2))"
    using len req(1) filler(1)
    by (simp add: generatePassword_def Let_def split: prod.splits)
  have perm: "mset (fst (shuffleString (req @ filler) rnd ?k2)) = mset (req @ filler)"
    using rng by (rule shuffleString_mset)
  have total: "int (length req) + int (length filler) = length_cfg config"
    using filler(2) room by simp
  from gen perm req(2) total filler(3) show ?thesis by blast
qed

lemma list_all2_three:
  "list_all2 P req [x, y, z] \<Longrightarrow> \<exists>a b d. req = [a, b, d] \<and> P a x \<and> P b y \<and> P d z"
  by (auto simp add: list_all2_Cons2)

lemma list_all2_four:
  "list_all2 P req [x, y, z, w]
     \<Longrightarrow> \<exists>a b d e. req = [a, b, d, e] \<and> P a x \<and> P b y \<and> P d z \<and> P e w"
  by (auto simp add: list_all2_Cons2)

lemma required_tests:
  assumes req: "list_all2 (\<lambda>c cs. c \<in> set cs) req (Object_values (CHARACTER_SETS S))"
    and sub: "set req \<subseteq> set pw"
  shows "test_range CHR ''a'' CHR ''z'' pw \<and> test_range CHR ''A'' CHR ''Z'' pw
         \<and> test_range CHR ''0'' CHR ''9'' pw \<and> (S = low \<or> test_symbols pw)"
proof (cases S)
  case low
  from req obtain a b d where r: "req = [a, b, d]"
    "a \<in> set ''abcdefghijklmnopqrstuvwxyz''" "b \<in> set ''ABCDEFGHIJKLMNOPQRSTUVWXYZ''"
    "d \<in> set ''0123456789''"
    unfolding low values_low by (blast dest: list_all2_three)
  have "a \<in> set pw" "b \<in> set pw" "d \<in> set pw" using sub r(1) by auto
  then show ?thesis
    using lowercase_class[OF r(2)] uppercase_class[OF r(3)] numbers_class[OF r(4)] low
    unfolding test_range_def list_ex_iff by blast
next
  case medium
  from req obtain a b d e where r: "req = [a, b, d, e]"
    "a \<in> set ''abcdefghijklmnopqrstuvwxyz''" "b \<in> set ''ABCDEFGHIJKLMNOPQRSTUVWXYZ''"
    "d \<in> set ''0123456789''" "e \<in> set ''!@#$%^&*''"
    unfolding medium values_medium by (blast dest: list_all2_four)
  have "a \<in> set pw" "b \<in> set pw" "d \<in> set pw" "e \<in> set pw" using sub r(1) by auto
  then show ?thesis
    using lowercase_class[OF r(2)] uppercase_class[OF r(3)] numbers_class[OF r(4)]
      basic_symbols_class[OF r(5)]
    unfolding test_range_def test_symbols_def list_ex_iff by blast
next
  case high
  from req obtain a b d e where r: "req = [a, b, d, e]"
    "a \<in> set ''abcdefghijklmnopqrstuvwxyz''" "b \<in> set ''ABCDEFGHIJKLMNOPQRSTUVWXYZ''"
    "d \<in> set ''0123456789''" "e \<in> set SYMBOL_CLASS"
    unfolding high values_high by (blast dest: list_all2_four)
  have "a \<in> set pw" "b \<in> set pw" "d \<in> set pw" "e \<in> set pw" using sub r(1) by auto
  then show ?thesis
    using lowercase_class[OF r(2)] uppercase_class[OF r(3)] numbers_class[OF r(4)] r(5)
    unfolding test_range_def test_symbols_def list_ex_iff by blast
qed

lemma low_alphabet:
  assumes "c \<in> set (join_strings (Object_values (CHARACTER_SETS low)))"
  shows "char_between CHR ''a'' CHR ''z'' c \<or> char_between CHR ''A'' CHR ''Z'' c
         \<or> char_between CHR ''0'' CHR ''9'' c"
proof -
  have "set (join_strings [x, y, z]) = set x \<union> set y \<union> set z" for x y z :: string
    by (auto simp add: join_strings_def)
  with assms have "c \<in> set ''abcdefghijklmnopqrstuvwxyz''
      \<or> c \<in> set ''ABCDEFGHIJKLMNOPQRSTUVWXYZ'' \<or> c \<in> set ''0123456789''"
    unfolding values_low by blast
  then show ?thesis
    using lowercase_class uppercase_class numbers_class by blast
qed

section \<open>Sample runs\<close>

lemma run_low_6:
  "generatePassword \<lparr>length_cfg = 6, strength_cfg = low\<rparr> sample_rnd 0 = (Inr ''JDal8r'', 11)"
  by code_simp

lemma run_medium_9:
  "generatePassword \<lparr>length_cfg = 9, strength_cfg = medium\<rparr> sample_rnd 0
     = (Inr ''YkaD%l8uE'', 17)"
  by code_simp

lemma run_high_12:
  "generatePassword \<lparr>length_cfg = 12, strength_cfg = high\<rparr> sample_rnd 0
     = (Inr ''[Ya8zm=!DzLl'', 23)"
  by code_simp

lemma run_shuffle: "shuffleString ''lD8Jra'' sample_rnd 6 = (''JDal8r'', 11)"
  by code_simp

section \<open>Validation\<close>

text \<open>
  Claim C1, as stated: for every password and every strength level the \<open>hasSymbols\<close> flag
  is true exactly when the password contains a character of the extended symbol set,
  whatever the level. The code guards the flag with \<^verbatim>\<open>strength !== 'low'\<close>: the password
  \<^verbatim>\<open>a[\<close> contains the extended symbol \<^verbatim>\<open>[\<close>, and validated against \<open>low\<close> its flag is false.
\<close>

theorem validate_hasSymbols_low_counterexample:
  "CHR ''['' \<in> set ''a['' \<and> CHR ''['' \<in> set ''!@#$%^&*()_+-=[]{}|;:,.<>?''
   \<and> \<not> hasSymbols (details (validatePasswordStrength ''a['' low))"
  by (simp add: validatePasswordStrength_def)

text \<open>
  Claim C1, amended: the \<open>hasSymbols\<close> flag of \<open>validatePasswordStrength P S\<close> is true
  exactly when \<open>S\<close> is not \<open>low\<close> and \<open>P\<close> contains at least one character of the extended
  symbol set; for \<open>medium\<close> and \<open>high\<close> the same extended set is used, and for \<open>low\<close> the
  flag is always false.
\<close>

theorem validate_hasSymbols_iff:
  "hasSymbols (details (validatePasswordStrength P S))
     = (S \<noteq> low \<and> set P \<inter> set ''!@#$%^&*()_+-=[]{}|;:,.<>?'' \<noteq> {})"
  by (auto simp add: validatePasswordStrength_def test_symbols_def SYMBOL_CLASS_def
      list_ex_iff Let_def)

theorem validate_hasSymbols_iff_witness:
  "hasSymbols (details (validatePasswordStrength ''pa[ss'' medium))
   \<and> hasSymbols (details (validatePasswordStrength ''pa[ss'' high))
   \<and> \<not> hasSymbols (details (validatePasswordStrength ''pa[ss'' low))
   \<and> \<not> hasSymbols (details (validatePasswordStrength ''pass'' high))"
  using validate_hasSymbols_iff[of "''pa[ss''" medium] validate_hasSymbols_iff[of "''pa[ss''" high]
    validate_hasSymbols_iff[of "''pa[ss''" low] validate_hasSymbols_iff[of "''pass''" high]
  by simp

text \<open>
  Claim C8: for every strength level, validating the empty string returns a report (the
  function has no failing path) whose four presence flags, \<open>meetsLength\<close> and overall
  validity are all false; the level is echoed.
\<close>

theorem validate_empty_string:
  "validatePasswordStrength '''' S =
     \<lparr>isValid = False,
      details = \<lparr>hasLowercase = False, hasUppercase = False, hasNumbers = False,
                 hasSymbols = False, meetsLength = False, strength = S\<rparr>\<rparr>"
  by (cases S) (simp_all add: validatePasswordStrength_def test_range_def test_symbols_def)

section \<open>Accessors\<close>

text \<open>
  Claim C7: the mapping returned by \<open>getCharacterSetsForStrength S\<close> has a key
  \<^verbatim>\<open>symbols\<close> exactly when \<open>S\<close> is not \<open>low\<close>. For \<open>low\<close> it has exactly the three keys
  \<^verbatim>\<open>lowercase\<close>, \<^verbatim>\<open>uppercase\<close>, \<^verbatim>\<open>numbers\<close>, and looking \<^verbatim>\<open>symbols\<close> up finds nothing
  (the key is absent, not bound to an empty string); \<open>medium\<close> and \<open>high\<close> have four classes.
\<close>

theorem getCharacterSets_symbols_iff:
  "(''symbols'' \<in> set (map fst (getCharacterSetsForStrength S))) = (S \<noteq> low)
   \<and> map fst (getCharacterSetsForStrength low) = [''lowercase'', ''uppercase'', ''numbers'']
   \<and> map_of (getCharacterSetsForStrength low) ''symbols'' = None
   \<and> map fst (getCharacterSetsForStrength medium)
        = [''lowercase'', ''uppercase'', ''numbers'', ''symbols'']
   \<and> map fst (getCharacterSetsForStrength high)
        = [''lowercase'', ''uppercase'', ''numbers'', ''symbols'']"
  by (cases S) (simp_all add: getCharacterSetsForStrength_def)

section \<open>The error of generatePassword\<close>

text \<open>
  Claim C2, as stated: the error raised for a too short length carries the offending
  length, the strength level and the required minimum. The error is
  \<^verbatim>\<open>new Error(message)\<close> and the message names only the minimum and the level: the
  requests of length 4 and of length 5 at \<open>low\<close> raise the very same error, so the
  offending length cannot be recovered from it.
\<close>

theorem generatePassword_error_omits_length:
  "generatePassword \<lparr>length_cfg = 4, strength_cfg = low\<rparr> sample_rnd 0
     = (Inl (Error ''Password length must be at least 6 characters for low strength''), 0)
   \<and> generatePassword \<lparr>length_cfg = 5, strength_cfg = low\<rparr> sample_rnd 0
     = (Inl (Error ''Password length must be at least 6 characters for low strength''), 0)"
  by (simp add: generatePassword_def string_of_min)

text \<open>
  Claim C2, amended: when the requested length is below the minimum of the level, the
  error raised carries a message that names the required minimum length and the strength
  level, and nothing else: it is the same for every too short length, and two such errors
  are equal exactly when the levels are, so the level and its minimum can be recovered
  from the error.
\<close>

theorem generatePassword_error_content:
  assumes "length_cfg c < MIN_LENGTHS (strength_cfg c)"
    and "length_cfg c' < MIN_LENGTHS (strength_cfg c')"
  shows "fst (generatePassword c rnd k) =
           Inl (Error (case strength_cfg c of
              low \<Rightarrow> ''Password length must be at least 6 characters for low strength''
            | medium \<Rightarrow> ''Password length must be at least 8 characters for medium strength''
            | high \<Rightarrow> ''Password length must be at least 12 characters for high strength''))
       \<and> ((fst (generatePassword c rnd k) = fst (generatePassword c' rnd' k'))
            = (strength_cfg c = strength_cfg c'))"
proof -
  have a: "fst (generatePassword c rnd k) =
      Inl (Error (''Password length must be at least ''
                  @ string_of_int (MIN_LENGTHS (strength_cfg c))
                  @ '' characters for '' @ strength_name (strength_cfg c) @ '' strength''))"
    using assms(1) by (simp add: generatePassword_def)
  have b: "fst (generatePassword c' rnd' k') =
      Inl (Error (''Password length must be at least ''
                  @ string_of_int (MIN_LENGTHS (strength_cfg c'))
                  @ '' characters for '' @ strength_name (strength_cfg c') @ '' strength''))"
    using assms(2) by (simp add: generatePassword_def)
  show ?thesis
    unfolding a b error_message_cases
    by (cases "strength_cfg c"; cases "strength_cfg c'") simp_all
qed

theorem generatePassword_error_content_witness:
  "(7::int) < MIN_LENGTHS medium \<and> (2::int) < MIN_LENGTHS high
   \<and> fst (generatePassword \<lparr>length_cfg = 7, strength_cfg = medium\<rparr> sample_rnd 0)
       = Inl (Error ''Password length must be at least 8 characters for medium strength'')
   \<and> fst (generatePassword \<lparr>length_cfg = 7, strength_cfg = medium\<rparr> sample_rnd 0)
       \<noteq> fst (generatePassword \<lparr>length_cfg = 2, strength_cfg = high\<rparr> sample_rnd 3)"
proof -
  have p: "length_cfg \<lparr>length_cfg = 7, strength_cfg = medium\<rparr>
             < MIN_LENGTHS (strength_cfg \<lparr>length_cfg = 7, strength_cfg = medium\<rparr>)"
    by simp
  have q: "length_cfg \<lparr>length_cfg = 2, strength_cfg = high\<rparr>
             < MIN_LENGTHS (strength_cfg \<lparr>length_cfg = 2, strength_cfg = high\<rparr>)"
    by simp
  have "(7::int) < MIN_LENGTHS medium \<and> (2::int) < MIN_LENGTHS high" by simp
  with generatePassword_error_content[OF p q, of sample_rnd 0 sample_rnd 3]
  show ?thesis by auto
qed

text \<open>
  Claim C6: for every strength level and every integer length, \<open>generatePassword\<close> fails
  exactly when the length is below the minimum of the level; the check comes first, so on
  failure the result is the error alone and no random draw has been made (the counter of
  the randomness source is unchanged).
\<close>

theorem generatePassword_fails_iff:
  "isl (fst (generatePassword config rnd k))
     = (length_cfg config < MIN_LENGTHS (strength_cfg config))
   \<and> (length_cfg config < MIN_LENGTHS (strength_cfg config)
        \<longrightarrow> snd (generatePassword config rnd k) = k)"
  by (simp add: generatePassword_def Let_def split: prod.splits)

theorem generatePassword_fails_iff_witness:
  "(11::int) < MIN_LENGTHS high
   \<and> isl (fst (generatePassword \<lparr>length_cfg = 11, strength_cfg = high\<rparr> sample_rnd 4))
   \<and> snd (generatePassword \<lparr>length_cfg = 11, strength_cfg = high\<rparr> sample_rnd 4) = 4
   \<and> \<not> isl (fst (generatePassword \<lparr>length_cfg = 12, strength_cfg = high\<rparr> sample_rnd 4))"
  using generatePassword_fails_iff[of "\<lparr>length_cfg = 11, strength_cfg = high\<rparr>" sample_rnd 4]
    generatePassword_fails_iff[of "\<lparr>length_cfg = 12, strength_cfg = high\<rparr>" sample_rnd 4]
  by simp

section \<open>The shuffle\<close>

text \<open>
  Claim C9: for every input string and every sequence of random numbers in \<open>[0, 1)\<close>
  (so that every draw \<open>j\<close> lies in \<open>[0, i]\<close>), \<open>shuffleString\<close> returns a permutation of
  its input: the same multiset of characters, nothing dropped or duplicated.
\<close>

theorem shuffleString_permutation:
  assumes "\<forall>m. 0 \<le> rnd m \<and> rnd m < 1"
  shows "mset (fst (shuffleString str rnd k)) = mset str"
proof -
  from assms have "\<And>m. 0 \<le> rnd m \<and> rnd m < 1" by blast
  then show ?thesis by (rule shuffleString_mset)
qed

theorem shuffleString_permutation_witness:
  "(\<forall>m. 0 \<le> sample_rnd m \<and> sample_rnd m < 1)
   \<and> fst (shuffleString ''lD8Jra'' sample_rnd 6) = ''JDal8r''
   \<and> mset (fst (shuffleString ''lD8Jra'' sample_rnd 6)) = mset ''lD8Jra''"
proof -
  have h: "\<forall>m. 0 \<le> sample_rnd m \<and> sample_rnd m < 1"
    using sample_rnd_range by blast
  have e: "fst (shuffleString ''lD8Jra'' sample_rnd 6) = ''JDal8r''"
    by (simp add: run_shuffle)
  from h e shuffleString_permutation[OF h, of "''lD8Jra''" 6] show ?thesis by blast
qed

section \<open>Generated passwords\<close>

text \<open>
  Claim C4: for every strength level, every length that is at least the minimum of the
  level and every sequence of random numbers in \<open>[0, 1)\<close>, \<open>generatePassword\<close> returns a
  string of exactly the requested length.
\<close>

theorem generatePassword_length:
  assumes "\<forall>m. 0 \<le> rnd m \<and> rnd m < 1"
    and "MIN_LENGTHS (strength_cfg config) \<le> length_cfg config"
  shows "\<exists>pw. fst (generatePassword config rnd k) = Inr pw
              \<and> int (length pw) = length_cfg config"
proof -
  from generatePassword_shape[OF assms, where k = k]
  obtain req filler pw k' where g: "generatePassword config rnd k = (Inr pw, k')"
    and m: "mset pw = mset (req @ filler)"
    and l: "int (length req) + int (length filler) = length_cfg config"
    by blast
  have "length pw = length (req @ filler)" using m by (rule mset_eq_length)
  then have "int (length pw) = length_cfg config" using l by simp
  with g show ?thesis by simp
qed

theorem generatePassword_length_witness:
  "(\<forall>m. 0 \<le> sample_rnd m \<and> sample_rnd m < 1) \<and> MIN_LENGTHS medium \<le> 9
   \<and> fst (generatePassword \<lparr>length_cfg = 9, strength_cfg = medium\<rparr> sample_rnd 0)
       = Inr ''YkaD%l8uE''
   \<and> (\<exists>pw. fst (generatePassword \<lparr>length_cfg = 9, strength_cfg = medium\<rparr> sample_rnd 0) = Inr pw
            \<and> int (length pw) = 9)"
proof -
  have h: "\<forall>m. 0 \<le> sample_rnd m \<and> sample_rnd m < 1"
    using sample_rnd_range by blast
  have n: "MIN_LENGTHS (strength_cfg \<lparr>length_cfg = 9, strength_cfg = medium\<rparr>)
             \<le> length_cfg \<lparr>length_cfg = 9, strength_cfg = medium\<rparr>"
    by simp
  from generatePassword_length[OF h n, of 0] h run_medium_9 show ?thesis by simp
qed

text \<open>
  Claim C5: for every strength level, every length that is at least the minimum of the
  level and every sequence of random numbers in \<open>[0, 1)\<close>, the returned password (the
  string after the final shuffle) contains at least one character of every class of the
  policy of the level: lowercase, uppercase and numbers for \<open>low\<close>, and the symbol class
  of the level as well for \<open>medium\<close> and \<open>high\<close>.
\<close>

theorem generatePassword_covers_classes:
  assumes "\<forall>m. 0 \<le> rnd m \<and> rnd m < 1"
    and "MIN_LENGTHS (strength_cfg config) \<le> length_cfg config"
  shows "\<exists>pw. fst (generatePassword config rnd k) = Inr pw
              \<and> (\<forall>(name, cs) \<in> set (CHARACTER_SETS (strength_cfg config)).
                    \<exists>c \<in> set pw. c \<in> set cs)"
proof -
  from generatePassword_shape[OF assms, where k = k]
  obtain req filler pw k' where g: "generatePassword config rnd k = (Inr pw, k')"
    and m: "mset pw = mset (req @ filler)"
    and r: "list_all2 (\<lambda>c cs. c \<in> set cs) req
              (Object_values (CHARACTER_SETS (strength_cfg config)))"
    by blast
  have s: "set req \<subseteq> set pw" using mset_eq_setD[OF m] by simp
  have "\<exists>c \<in> set pw. c \<in> set cs"
    if "(name, cs) \<in> set (CHARACTER_SETS (strength_cfg config))" for name cs
  proof -
    from that have "cs \<in> set (Object_values (CHARACTER_SETS (strength_cfg config)))"
      by (force simp add: Object_values_def)
    from required_cover[OF r this] s show ?thesis by blast
  qed
  with g show ?thesis by auto
qed

theorem generatePassword_covers_classes_witness:
  "(\<forall>m. 0 \<le> sample_rnd m \<and> sample_rnd m < 1) \<and> MIN_LENGTHS high \<le> 12
   \<and> fst (generatePassword \<lparr>length_cfg = 12, strength_cfg = high\<rparr> sample_rnd 0)
       = Inr ''[Ya8zm=!DzLl''
   \<and> (\<exists>pw. fst (generatePassword \<lparr>length_cfg = 12, strength_cfg = high\<rparr> sample_rnd 0) = Inr pw
            \<and> (\<forall>(name, cs) \<in> set (CHARACTER_SETS high). \<exists>c \<in> set pw. c \<in> set cs))"
proof -
  have h: "\<forall>m. 0 \<le> sample_rnd m \<and> sample_rnd m < 1"
    using sample_rnd_range by blast
  have n: "MIN_LENGTHS (strength_cfg \<lparr>length_cfg = 12, strength_cfg = high\<rparr>)
             \<le> length_cfg \<lparr>length_cfg = 12, strength_cfg = high\<rparr>"
    by simp
  have e: "fst (generatePassword \<lparr>length_cfg = 12, strength_cfg = high\<rparr> sample_rnd 0)
             = Inr ''[Ya8zm=!DzLl''"
    by (simp add: run_high_12)
  have t: "\<exists>pw. fst (generatePassword \<lparr>length_cfg = 12, strength_cfg = high\<rparr> sample_rnd 0) = Inr pw
            \<and> (\<forall>(name, cs) \<in> set (CHARACTER_SETS high). \<exists>c \<in> set pw. c \<in> set cs)"
    using generatePassword_covers_classes[OF h n, of 0] by simp
  have m: "MIN_LENGTHS high \<le> 12" by simp
  from h m e t show ?thesis by blast
qed

text \<open>
  Claim C3: for every strength level, every length that is at least the minimum of the
  level and every sequence of random numbers in \<open>[0, 1)\<close>, the password that
  \<open>generatePassword\<close> returns is valid for \<open>validatePasswordStrength\<close> at the same level.
\<close>

theorem generatePassword_self_validates:
  assumes "\<forall>m. 0 \<le> rnd m \<and> rnd m < 1"
    and "MIN_LENGTHS (strength_cfg config) \<le> length_cfg config"
  shows "\<exists>pw. fst (generatePassword config rnd k) = Inr pw
              \<and> isValid (validatePasswordStrength pw (strength_cfg config))"
proof -
  from generatePassword_shape[OF assms, where k = k]
  obtain req filler pw k' where g: "generatePassword config rnd k = (Inr pw, k')"
    and m: "mset pw = mset (req @ filler)"
    and r: "list_all2 (\<lambda>c cs. c \<in> set cs) req
              (Object_values (CHARACTER_SETS (strength_cfg config)))"
    and l: "int (length req) + int (length filler) = length_cfg config"
    by blast
  have s: "set req \<subseteq> set pw" using mset_eq_setD[OF m] by simp
  have "length pw = length (req @ filler)" using m by (rule mset_eq_length)
  then have n: "MIN_LENGTHS (strength_cfg config) \<le> int (length pw)"
    using l assms(2) by simp
  from required_tests[OF r s] n
  have "isValid (validatePasswordStrength pw (strength_cfg config))"
    by (auto simp add: validatePasswordStrength_def Let_def)
  with g show ?thesis by simp
qed

theorem generatePassword_self_validates_witness:
  "(\<forall>m. 0 \<le> sample_rnd m \<and> sample_rnd m < 1) \<and> MIN_LENGTHS medium \<le> 9
   \<and> isValid (validatePasswordStrength ''YkaD%l8uE'' medium)
   \<and> (\<exists>pw. fst (generatePassword \<lparr>length_cfg = 9, strength_cfg = medium\<rparr> sample_rnd 0) = Inr pw
            \<and> isValid (validatePasswordStrength pw medium))"
proof -
  have h: "\<forall>m. 0 \<le> sample_rnd m \<and> sample_rnd m < 1"
    using sample_rnd_range by blast
  have n: "MIN_LENGTHS (strength_cfg \<lparr>length_cfg = 9, strength_cfg = medium\<rparr>)
             \<le> length_cfg \<lparr>length_cfg = 9, strength_cfg = medium\<rparr>"
    by simp
  from generatePassword_self_validates[OF h n, of 0] h run_medium_9 show ?thesis by simp
qed

text \<open>
  Claim C10: for every length of at least 6 and every sequence of random numbers in
  \<open>[0, 1)\<close>, every character of the password generated at \<open>low\<close> is a lowercase letter, an
  uppercase letter or a digit, and the password contains no character of the symbol class.
\<close>

theorem generatePassword_low_alphanumeric:
  assumes "\<forall>m. 0 \<le> rnd m \<and> rnd m < 1"
    and "6 \<le> L"
  shows "\<exists>pw. fst (generatePassword \<lparr>length_cfg = L, strength_cfg = low\<rparr> rnd k) = Inr pw
              \<and> (\<forall>c \<in> set pw. char_between CHR ''a'' CHR ''z'' c
                                \<or> char_between CHR ''A'' CHR ''Z'' c
                                \<or> char_between CHR ''0'' CHR ''9'' c)
              \<and> \<not> test_symbols pw"
proof -
  let ?config = "\<lparr>length_cfg = L, strength_cfg = low\<rparr>"
  let ?all = "join_strings (Object_values (CHARACTER_SETS low))"
  have len: "MIN_LENGTHS (strength_cfg ?config) \<le> length_cfg ?config"
    using assms(2) by simp
  from generatePassword_shape[OF assms(1) len, where k = k]
  obtain req filler pw k' where g: "generatePassword ?config rnd k = (Inr pw, k')"
    and m: "mset pw = mset (req @ filler)"
    and r: "list_all2 (\<lambda>c cs. c \<in> set cs) req (Object_values (CHARACTER_SETS low))"
    and f: "set filler \<subseteq> set ?all"
    by auto
  have "set pw = set req \<union> set filler" using mset_eq_setD[OF m] by simp
  then have sub: "set pw \<subseteq> set ?all" using required_in_union[OF r] f by blast
  have alnum: "char_between CHR ''a'' CHR ''z'' c \<or> char_between CHR ''A'' CHR ''Z'' c
                 \<or> char_between CHR ''0'' CHR ''9'' c" if "c \<in> set pw" for c
    using that sub low_alphabet by blast
  then have "\<not> test_symbols pw"
    unfolding test_symbols_def list_ex_iff using symbol_not_alphanumeric by blast
  with g alnum show ?thesis by auto
qed

theorem generatePassword_low_alphanumeric_witness:
  "(\<forall>m. 0 \<le> sample_rnd m \<and> sample_rnd m < 1) \<and> (6::int) \<le> 6
   \<and> fst (generatePassword \<lparr>length_cfg = 6, strength_cfg = low\<rparr> sample_rnd 0) = Inr ''JDal8r''
   \<and> \<not> test_symbols ''JDal8r''"
proof -
  have h: "\<forall>m. 0 \<le> sample_rnd m \<and> sample_rnd m < 1"
    using sample_rnd_range by blast
  have n: "(6::int) \<le> 6" by simp
  from generatePassword_low_alphanumeric[OF h n, of 0] h run_low_6 show ?thesis by simp
qed

end
